theory Spec2Isabelle
  imports Main "HOL-Library.Word"
begin

unbundle bit_operations_syntax

section \<open>The checkpoint barrier of managers/processor/checkpoint/core.c\<close>

text \<open>
  The development embeds the functions of \<^verbatim>\<open>managers/processor/checkpoint/core.c\<close>:
  \<^verbatim>\<open>paranoid_state_check\<close>, \<^verbatim>\<open>__do_checkpoint_process\<close>, \<^verbatim>\<open>do_checkpoint_process\<close>,
  \<^verbatim>\<open>wake_up_thread_group\<close>, \<^verbatim>\<open>barrier_timeout_wakeup\<close>, \<^verbatim>\<open>checkpoint_thread\<close>,
  \<^verbatim>\<open>checkpoint_process\<close> and the \<^verbatim>\<open>checkpoint_process\<close> system call.

  A \<^verbatim>\<open>struct task_struct *\<close> is an address (a natural number) into the kernel memory
  \<open>mem\<close>. Every function returns, next to its C result, the list of calls it made
  (its \<open>event\<close>s) and the kernel state it leaves. What other threads and the timer do
  while a function runs is part of the environment \<open>extern\<close>.
\<close>

subsection \<open>Data\<close>

type_synonym task_ptr = nat

record task_struct =
  pid :: int
  tgid :: int
  state :: "64 word"
  need_checkpoint :: bool
  group_leader :: task_ptr
  process_barrier :: "32 word"
  nr_threads :: "32 word"
  thread_group :: "task_ptr list"

text \<open>
  \<open>state\<close> is the C \<^verbatim>\<open>long state\<close>, \<open>need_checkpoint\<close> the thread flag
  \<^verbatim>\<open>TIF_NEED_CHECKPOINT\<close>, \<open>process_barrier\<close> the \<^verbatim>\<open>atomic_t\<close> of the same name,
  \<open>nr_threads\<close> the \<^verbatim>\<open>int\<close> read as \<^verbatim>\<open>p->signal->nr_threads\<close>, and \<open>thread_group\<close>
  the threads that \<^verbatim>\<open>for_each_thread(p, t)\<close> visits, in the order it visits them.
\<close>

record ss_task_struct =
  ss_pid :: int
  ss_regs :: nat

record process_snapshot =
  nr_tasks :: "32 word"
  tasks :: nat

text \<open>
  Of \<^verbatim>\<open>struct process_snapshot\<close> the file writes \<^verbatim>\<open>nr_tasks\<close> and \<^verbatim>\<open>tasks\<close> (the address
  of the fragment array); what \<^verbatim>\<open>save_open_files\<close> and \<^verbatim>\<open>save_signals\<close> store in it is
  not among the sources and is not modelled.
\<close>

record kstate =
  mem :: "task_ptr \<Rightarrow> task_struct"
  pidhash :: "int \<rightharpoonup> task_ptr"
  jiffies :: "64 word"
  checkpoint_barrier_timeout_msec :: "64 word"
  heap :: "nat \<rightharpoonup> ss_task_struct option list"

text \<open>
  \<open>pidhash\<close> is what \<^verbatim>\<open>find_task_by_pid\<close> consults. \<open>heap\<close> holds the arrays obtained from
  \<^verbatim>\<open>kmalloc\<close> and not yet given to \<^verbatim>\<open>kfree\<close>; a slot never written is \<open>None\<close>.
\<close>

datatype event =
    SpinLockIrqsave
  | SpinUnlockIrqrestore
  | PrInfo "64 word" int
  | Kmalloc int
  | Kfree nat
  | SaveOpenFiles task_ptr
  | SaveSignals task_ptr
  | RevertSaveOpenFiles task_ptr
  | SaveThreadRegs task_ptr
  | PreemptDisable
  | PreemptEnableNoResched
  | WakeUpState task_ptr "64 word" bool
  | Warn int int "64 word"
  | KickProcess task_ptr
  | DebugAbort int "32 word" "64 word"
  | DebugThread nat int "64 word" bool
  | DebugEnter int int
  | DebugElapsed
  | DebugSetNeed int int
  | AtomicInc task_ptr
  | AtomicSet task_ptr "32 word"
  | Schedule
  | DoCheckpointProcess task_ptr
  | SetTskThreadFlag task_ptr
  | ClearTskThreadFlag task_ptr
  | SyscallEnter int
  | SyscallExit int

datatype 'a outcome =
    Returned 'a kstate
  | Bug kstate
  | Blocked kstate
  | Spinning kstate
  | Fault kstate

text \<open>
  \<open>Returned r s\<close>: the function returned \<open>r\<close> in state \<open>s\<close>. \<open>Bug s\<close>: a \<^verbatim>\<open>BUG_ON\<close> fired.
  \<open>Blocked s\<close>: the thread is parked in \<^verbatim>\<open>schedule()\<close> and was never run again.
  \<open>Spinning s\<close>: the leader is still polling when the observed environment ends.
  \<open>Fault s\<close>: a store past the end of the fragment array, \<open>s\<close> being the state just
  before it.
\<close>

record extern =
  CONFIG_CHECKPOINT_DEBUG :: bool
  TASK_RUNNING :: "64 word"
  TASK_CHECKPOINTING :: "64 word"
  TASK_ALL :: "64 word"
  msecs_to_jiffies :: "64 word \<Rightarrow> 64 word"
  time_after :: "64 word \<Rightarrow> 64 word \<Rightarrow> bool"
  kmalloc :: "kstate \<Rightarrow> int \<Rightarrow> nat option"
  save_open_files :: "task_ptr \<Rightarrow> int"
  save_signals :: "task_ptr \<Rightarrow> int"
  save_thread_regs :: "task_ptr \<Rightarrow> nat"
  schedule :: "kstate \<Rightarrow> kstate option"
  interleave :: "(kstate \<Rightarrow> kstate) list"

text \<open>
  The parts of the kernel that the file uses and that are not among the sources are
  parameters: the build option, the task-state constants and the jiffies macros of the
  absent headers, the allocator (\<open>kmalloc X s n\<close> is the address of a fresh array of \<open>n\<close>
  fragments, or \<open>None\<close> for \<^verbatim>\<open>NULL\<close>), the three capture collaborators
  (\<^verbatim>\<open>save_open_files\<close> and \<^verbatim>\<open>save_signals\<close> give their \<^verbatim>\<open>int\<close> result;
  \<^verbatim>\<open>save_thread_regs\<close> is \<^verbatim>\<open>void\<close> and gives the registers it stores), what the rest
  of the system
  does to the kernel state while the caller is parked in \<^verbatim>\<open>schedule()\<close> (\<open>None\<close>: it is
  never run again), and what it does between two polls of the leader's busy-wait loop.
\<close>

subsection \<open>Constants\<close>

definition MSEC_PER_SEC :: "64 word" where
  \<comment> \<open>Modelled from the spec: \<^verbatim>\<open>MSEC_PER_SEC\<close> is declared in \<^verbatim>\<open><lego/time.h>\<close>, which is
      not among the sources. The timeout is a wall-clock duration in milliseconds; the
      constant is the number of milliseconds in a second.\<close>
  "MSEC_PER_SEC = 1000"

definition ENOMEM :: int where
  \<comment> \<open>Modelled from the spec: the error reported for an allocation failure. The header
      with the errno numbers is not among the sources; 12 is the number Linux gives it.\<close>
  "ENOMEM = 12"

definition ESRCH :: int where
  \<comment> \<open>Modelled from the spec: the error reported for "no such process". The header with
      the errno numbers is not among the sources; 3 is the number Linux gives it.\<close>
  "ESRCH = 3"

definition checkpoint_barrier_timeout_msec_default :: "bool \<Rightarrow> 64 word" where
  \<comment> \<open>The initialiser of \<^verbatim>\<open>checkpoint_barrier_timeout_msec\<close>; the argument says whether
      \<^verbatim>\<open>CONFIG_CHECKPOINT_DEBUG\<close> is defined.\<close>
  "checkpoint_barrier_timeout_msec_default debug = (if debug then 5 * MSEC_PER_SEC else 500)"

definition checkpoint_job_timeout_msec_default :: "64 word" where
  "checkpoint_job_timeout_msec_default = 10 * MSEC_PER_SEC"

subsection \<open>Primitive state updates\<close>

definition set_state :: "task_ptr \<Rightarrow> 64 word \<Rightarrow> kstate \<Rightarrow> kstate" where
  "set_state t v s = s\<lparr>mem := (mem s)(t := (mem s t)\<lparr>state := v\<rparr>)\<rparr>"

definition set_need_checkpoint :: "task_ptr \<Rightarrow> bool \<Rightarrow> kstate \<Rightarrow> kstate" where
  "set_need_checkpoint t b s = s\<lparr>mem := (mem s)(t := (mem s t)\<lparr>need_checkpoint := b\<rparr>)\<rparr>"

definition atomic_inc :: "task_ptr \<Rightarrow> kstate \<Rightarrow> kstate" where
  "atomic_inc t s =
     s\<lparr>mem := (mem s)(t := (mem s t)\<lparr>process_barrier := process_barrier (mem s t) + 1\<rparr>)\<rparr>"

definition atomic_set :: "task_ptr \<Rightarrow> 32 word \<Rightarrow> kstate \<Rightarrow> kstate" where
  "atomic_set t v s = s\<lparr>mem := (mem s)(t := (mem s t)\<lparr>process_barrier := v\<rparr>)\<rparr>"

definition wake_up_state :: "extern \<Rightarrow> task_ptr \<Rightarrow> 64 word \<Rightarrow> kstate \<Rightarrow> bool \<times> kstate" where
  \<comment> \<open>Modelled from the spec: \<^verbatim>\<open>wake_up_state\<close> belongs to the scheduler, which is not
      among the sources. A context blocked in a state that the mask names is made
      runnable and the call reports \<open>True\<close>; otherwise nothing changes and it reports
      \<open>False\<close>.\<close>
  "wake_up_state X t msk s =
     (if state (mem s t) AND msk \<noteq> 0 then (True, set_state t (TASK_RUNNING X) s)
      else (False, s))"

subsection \<open>The snapshot orchestrator\<close>

definition paranoid_state_check :: "extern \<Rightarrow> task_ptr \<Rightarrow> kstate \<Rightarrow> event list" where
  "paranoid_state_check X leader s =
     (if CONFIG_CHECKPOINT_DEBUG X then
        [SpinLockIrqsave] @
        concat (map (\<lambda>t. if leader = t then []
                         else if state (mem s t) \<noteq> TASK_CHECKPOINTING X
                              then [PrInfo (state (mem s t)) (pid (mem s t))] else [])
                    (thread_group (mem s leader))) @
        [SpinUnlockIrqrestore]
      else [])"

fun save_threads ::
  "extern \<Rightarrow> kstate \<Rightarrow> task_ptr list \<Rightarrow> nat \<Rightarrow> ss_task_struct option list
     \<Rightarrow> event list \<times> ss_task_struct option list \<times> bool" where
  "save_threads X s [] i arr = ([], arr, True)"
| "save_threads X s (t # ts) i arr =
     (if i < length arr then
        (let (evs, arr', ok) =
               save_threads X s ts (Suc i)
                 (arr[i := Some \<lparr>ss_pid = pid (mem s t), ss_regs = save_thread_regs X t\<rparr>])
         in (SaveThreadRegs t # evs, arr', ok))
      else ([], arr, False))"

text \<open>
  The loop \<^verbatim>\<open>for_each_thread(leader, t) { ss_task = &ss_tasks[i++]; ... }\<close>. The array
  has the length it was allocated with. The result is the calls made, the array as
  stored into, and whether the loop ran to its end: at the first index beyond the array
  the store \<^verbatim>\<open>ss_task->pid = t->pid\<close> is out of bounds and the loop stops there with
  \<open>False\<close>, after the calls and stores of the rounds before it.
\<close>

definition kfree :: "nat \<Rightarrow> kstate \<Rightarrow> kstate" where
  "kfree a s = s\<lparr>heap := (heap s)(a := None)\<rparr>"

definition do_checkpoint_process_inner ::
  "extern \<Rightarrow> task_ptr \<Rightarrow> kstate \<Rightarrow> event list \<times> int outcome \<times> process_snapshot option" where
  \<comment> \<open>\<^verbatim>\<open>__do_checkpoint_process\<close>. The third component is the automatic variable \<^verbatim>\<open>ps\<close>
      as it stands when the function leaves with 0; the C function returns the \<^verbatim>\<open>int\<close>
      only.\<close>
  "do_checkpoint_process_inner X leader s =
     (let ev0 = paranoid_state_check X leader s;
          n = nr_threads (mem s leader)
      in case kmalloc X s (sint n) of
           None \<Rightarrow> (ev0 @ [Kmalloc (sint n)], Returned (- ENOMEM) s, None)
         | Some a \<Rightarrow>
             let s1 = s\<lparr>heap := (heap s)(a \<mapsto> replicate (nat (sint n)) None)\<rparr>;
                 ev1 = ev0 @ [Kmalloc (sint n), SaveOpenFiles leader];
                 r1 = save_open_files X leader
             in if r1 \<noteq> 0 then (ev1 @ [Kfree a], Returned r1 (kfree a s1), None)
                else
                  let ev2 = ev1 @ [SaveSignals leader];
                      r2 = save_signals X leader
                  in if r2 \<noteq> 0
                     then (ev2 @ [RevertSaveOpenFiles leader, Kfree a],
                           Returned r2 (kfree a s1), None)
                     else
                       let (ev3, arr, ok) =
                             save_threads X s1 (thread_group (mem s1 leader)) 0
                               (replicate (nat (sint n)) None);
                           s2 = s1\<lparr>heap := (heap s1)(a \<mapsto> arr)\<rparr>
                       in if ok
                          then (ev2 @ ev3, Returned 0 s2, Some \<lparr>nr_tasks = n, tasks = a\<rparr>)
                          else (ev2 @ ev3, Fault s2, None))"

definition do_checkpoint_process ::
  "extern \<Rightarrow> task_ptr \<Rightarrow> kstate \<Rightarrow> event list \<times> int outcome" where
  "do_checkpoint_process X leader s =
     (let (evs, out, ps) = do_checkpoint_process_inner X leader s
      in case out of
           Returned ret s' \<Rightarrow>
             ([PreemptDisable] @ evs @ [PreemptEnableNoResched], Returned ret s')
         | Bug s' \<Rightarrow> ([PreemptDisable] @ evs, Bug s')
         | Blocked s' \<Rightarrow> ([PreemptDisable] @ evs, Blocked s')
         | Spinning s' \<Rightarrow> ([PreemptDisable] @ evs, Spinning s')
         | Fault s' \<Rightarrow> ([PreemptDisable] @ evs, Fault s'))"

subsection \<open>Waking the group\<close>

fun wake_up_thread_group_loop ::
  "extern \<Rightarrow> task_ptr \<Rightarrow> task_ptr list \<Rightarrow> kstate \<Rightarrow> event list \<times> kstate" where
  "wake_up_thread_group_loop X leader [] s = ([], s)"
| "wake_up_thread_group_loop X leader (t # ts) s =
     (if leader = t then wake_up_thread_group_loop X leader ts s
      else
        let (w, s1) = wake_up_state X t (TASK_CHECKPOINTING X) s;
            evs = WakeUpState t (TASK_CHECKPOINTING X) w #
                  (if \<not> w then [Warn (pid (mem s1 t)) (tgid (mem s1 t)) (state (mem s1 t))]
                   else []);
            (evs', s2) = wake_up_thread_group_loop X leader ts s1
        in (evs @ evs', s2))"

definition wake_up_thread_group :: "extern \<Rightarrow> task_ptr \<Rightarrow> kstate \<Rightarrow> event list \<times> kstate" where
  "wake_up_thread_group X leader s =
     (let (evs, s') = wake_up_thread_group_loop X leader (thread_group (mem s leader)) s
      in ([SpinLockIrqsave] @ evs @ [SpinUnlockIrqrestore], s'))"

fun barrier_timeout_wakeup_loop ::
  "extern \<Rightarrow> task_ptr list \<Rightarrow> nat \<Rightarrow> kstate \<Rightarrow> event list \<times> kstate" where
  "barrier_timeout_wakeup_loop X [] i s = ([], s)"
| "barrier_timeout_wakeup_loop X (t # ts) i s =
     (let d = DebugThread i (pid (mem s t)) (state (mem s t)) (need_checkpoint (mem s t));
          (w, s1) = wake_up_state X t (TASK_ALL X) s;
          (evs', s2) = barrier_timeout_wakeup_loop X ts (Suc i) s1
      in ([d, WakeUpState t (TASK_ALL X) w] @ evs', s2))"

definition barrier_timeout_wakeup :: "extern \<Rightarrow> task_ptr \<Rightarrow> kstate \<Rightarrow> event list \<times> kstate" where
  "barrier_timeout_wakeup X leader s =
     (let (evs, s') = barrier_timeout_wakeup_loop X (thread_group (mem s leader)) 0 s
      in ([DebugAbort (pid (mem s leader)) (nr_threads (mem s leader))
             (checkpoint_barrier_timeout_msec s), SpinLockIrqsave]
          @ evs @ [SpinUnlockIrqrestore], s'))"

subsection \<open>The rendezvous\<close>

datatype barrier = AllArrived kstate | TimedOut kstate | StillPolling kstate

fun barrier_poll ::
  "extern \<Rightarrow> task_ptr \<Rightarrow> 64 word \<Rightarrow> (kstate \<Rightarrow> kstate) list \<Rightarrow> kstate \<Rightarrow> barrier" where
  "barrier_poll X p timeout [] s =
     (if process_barrier (mem s p) = nr_threads (mem s p) then AllArrived s
      else if time_after X (jiffies s) timeout then TimedOut s
      else StillPolling s)"
| "barrier_poll X p timeout (e # es) s =
     (if process_barrier (mem s p) = nr_threads (mem s p) then AllArrived s
      else if time_after X (jiffies s) timeout then TimedOut s
      else barrier_poll X p timeout es (e s))"

text \<open>
  The loop \<^verbatim>\<open>while (atomic_read(&p->process_barrier) != p->signal->nr_threads)\<close> with
  its test \<^verbatim>\<open>time_after(jiffies, timeout)\<close>. Between two rounds the rest of the system
  runs: the next element of the list is applied to the kernel state. When the list is
  used up and neither exit was taken the leader is still polling.
\<close>

definition checkpoint_thread ::
  "extern \<Rightarrow> task_ptr \<Rightarrow> task_ptr \<Rightarrow> kstate \<Rightarrow> event list \<times> int outcome" where
  \<comment> \<open>\<open>cur\<close> is \<^verbatim>\<open>current\<close>, the thread that executes the call; \<^verbatim>\<open>set_current_state\<close>
      writes its state.\<close>
  "checkpoint_thread X cur p s =
     (let saved_state = state (mem s p);
          ev0 = [DebugEnter (pid (mem s p)) (tgid (mem s p))]
      in if \<not> need_checkpoint (mem s p) then (ev0, Bug s)
         else
           let leader = group_leader (mem s p);
               s1 = atomic_inc leader s;
               ev1 = ev0 @ [AtomicInc leader]
           in if p \<noteq> leader then
                (let s2 = set_state cur (TASK_CHECKPOINTING X) s1
                 in case schedule X s2 of
                      None \<Rightarrow> (ev1 @ [Schedule], Blocked s2)
                    | Some s3 \<Rightarrow>
                        (ev1 @ [Schedule, ClearTskThreadFlag p],
                         Returned 0 (set_need_checkpoint p False (set_state cur saved_state s3))))
              else
                (let timeout = jiffies s1 + msecs_to_jiffies X (checkpoint_barrier_timeout_msec s1)
                 in case barrier_poll X p timeout (interleave X) s1 of
                      StillPolling s2 \<Rightarrow> (ev1, Spinning s2)
                    | TimedOut s2 \<Rightarrow>
                        (let (evw, s3) = barrier_timeout_wakeup X p s2
                         in (ev1 @ evw @ [AtomicSet p 0, ClearTskThreadFlag p],
                             Returned 0 (set_need_checkpoint p False (atomic_set p 0 s3))))
                    | AllArrived s2 \<Rightarrow>
                        (let (evc, out) = do_checkpoint_process X p s2;
                             ev2 = ev1 @ [DebugElapsed, DoCheckpointProcess p] @ evc
                         in case out of
                              Returned ret s3 \<Rightarrow>
                                (let (evw, s4) = wake_up_thread_group X p s3
                                 in (ev2 @ evw @ [AtomicSet p 0, ClearTskThreadFlag p],
                                     Returned 0
                                       (set_need_checkpoint p False (atomic_set p 0 s4))))
                            | Bug s3 \<Rightarrow> (ev2, Bug s3)
                            | Blocked s3 \<Rightarrow> (ev2, Blocked s3)
                            | Spinning s3 \<Rightarrow> (ev2, Spinning s3)
                            | Fault s3 \<Rightarrow> (ev2, Fault s3))))"

text \<open>
  \<open>DoCheckpointProcess p\<close> records the call \<^verbatim>\<open>do_checkpoint_process(p)\<close>; its \<^verbatim>\<open>int\<close>
  result \<open>ret\<close> is not used afterwards.
\<close>

subsection \<open>The dispatcher and the system call\<close>

fun checkpoint_process_loop ::
  "extern \<Rightarrow> task_ptr list \<Rightarrow> kstate \<Rightarrow> event list \<times> kstate" where
  "checkpoint_process_loop X [] s = ([], s)"
| "checkpoint_process_loop X (t # ts) s =
     (let d = DebugSetNeed (pid (mem s t)) (tgid (mem s t));
          s1 = set_need_checkpoint t True s;
          (w, s2) = wake_up_state X t (TASK_ALL X) s1;
          evs = [d, SetTskThreadFlag t, WakeUpState t (TASK_ALL X) w] @
                (if \<not> w then [KickProcess t] else []);
          (evs', s3) = checkpoint_process_loop X ts s2
      in (evs @ evs', s3))"

definition checkpoint_process ::
  "extern \<Rightarrow> task_ptr \<Rightarrow> kstate \<Rightarrow> event list \<times> int \<times> kstate" where
  "checkpoint_process X p s =
     (let (evs, s') = checkpoint_process_loop X (thread_group (mem s p)) s
      in ([SpinLockIrqsave] @ evs @ [SpinUnlockIrqrestore], 0, s'))"

definition sys_checkpoint_process ::
  "extern \<Rightarrow> int \<Rightarrow> kstate \<Rightarrow> event list \<times> int \<times> kstate" where
  \<comment> \<open>\<^verbatim>\<open>SYSCALL_DEFINE1(checkpoint_process, pid_t, pid)\<close>; \<^verbatim>\<open>find_task_by_pid\<close> is the
      lookup in \<open>pidhash\<close>, \<open>None\<close> for \<^verbatim>\<open>NULL\<close>.\<close>
  "sys_checkpoint_process X pid_arg s =
     (case pidhash s pid_arg of
        None \<Rightarrow> ([SyscallEnter pid_arg, SyscallExit (- ESRCH)], - ESRCH, s)
      | Some tsk \<Rightarrow>
          let (evs, ret, s') = checkpoint_process X tsk s
          in ([SyscallEnter pid_arg] @ evs @ [SyscallExit ret], ret, s'))"

subsection \<open>Reading a trace\<close>

fun is_capture :: "event \<Rightarrow> bool" where
  "is_capture (DoCheckpointProcess p) = True"
| "is_capture _ = False"

definition captures :: "event list \<Rightarrow> nat" where
  "captures evs = length (filter is_capture evs)"

fun outcome_state :: "'a outcome \<Rightarrow> kstate" where
  "outcome_state (Returned r s) = s"
| "outcome_state (Bug s) = s"
| "outcome_state (Blocked s) = s"
| "outcome_state (Spinning s) = s"
| "outcome_state (Fault s) = s"

fun spec_dispatch_events :: "extern \<Rightarrow> kstate \<Rightarrow> (task_ptr \<times> bool) list \<Rightarrow> event list" where
  "spec_dispatch_events X s [] = []"
| "spec_dispatch_events X s ((t, w) # tws) =
     [DebugSetNeed (pid (mem s t)) (tgid (mem s t)), SetTskThreadFlag t,
      WakeUpState t (TASK_ALL X) w] @ (if w then [] else [KickProcess t]) @
     spec_dispatch_events X s tws"

text \<open>
  \<open>spec_dispatch_events X s tws\<close> is the trace that the sentence about the dispatcher
  describes, for the threads and wake results listed in \<open>tws\<close>: for each thread in turn
  the flag is set, the thread is woken with \<^verbatim>\<open>TASK_ALL\<close>, and it is kicked exactly when
  the wake reported \<open>False\<close>.
\<close>

subsection \<open>A process of two threads\<close>

definition demo_mem :: "task_ptr \<Rightarrow> task_struct" where
  "demo_mem a =
     (if a = 1 then
        \<lparr>pid = 100, tgid = 100, state = 0, need_checkpoint = True, group_leader = 1,
         process_barrier = 0, nr_threads = 2, thread_group = [1, 2]\<rparr>
      else if a = 2 then
        \<lparr>pid = 101, tgid = 100, state = 1, need_checkpoint = True, group_leader = 1,
         process_barrier = 0, nr_threads = 2, thread_group = [1, 2]\<rparr>
      else
        \<lparr>pid = 0, tgid = 0, state = 0, need_checkpoint = False, group_leader = a,
         process_barrier = 0, nr_threads = 1, thread_group = [a]\<rparr>)"

definition demo_state :: kstate where
  "demo_state =
     \<lparr>mem = demo_mem, pidhash = [100 \<mapsto> 1, 101 \<mapsto> 2], jiffies = 0,
      checkpoint_barrier_timeout_msec = checkpoint_barrier_timeout_msec_default False,
      heap = Map.empty\<rparr>"

definition tick :: "64 word \<Rightarrow> kstate \<Rightarrow> kstate" where
  "tick n s = s\<lparr>jiffies := jiffies s + n\<rparr>"

definition demo_env :: extern where
  "demo_env =
     \<lparr>CONFIG_CHECKPOINT_DEBUG = False, TASK_RUNNING = 0, TASK_CHECKPOINTING = 4096,
      TASK_ALL = - 1, msecs_to_jiffies = (\<lambda>m. m),
      time_after = (\<lambda>a b. sint (b - a) < 0),
      kmalloc = (\<lambda>s n. Some 7),
      save_open_files = (\<lambda>t. 0), save_signals = (\<lambda>t. 0),
      save_thread_regs = (\<lambda>t. 1000 + t),
      schedule = (\<lambda>s. None),
      interleave = [tick 501]\<rparr>"

text \<open>
  The leader is the task at address 1 (pid 100), the second thread the task at address
  2 (pid 101), asleep in state 1; both have been marked by the dispatcher and neither
  has arrived. In \<open>demo_env\<close> the clock runs at one jiffy per millisecond, every
  collaborator succeeds, a parked thread is not run again, and between the leader's
  first and second poll 501 ms pass while nothing else happens.
\<close>

definition unmarked_state :: kstate where
  "unmarked_state = demo_state\<lparr>mem := (\<lambda>a. (demo_mem a)\<lparr>need_checkpoint := False\<rparr>)\<rparr>"

definition failing_env :: extern where
  "failing_env = demo_env\<lparr>save_signals := (\<lambda>t. - 5), interleave := [atomic_inc 1]\<rparr>"

definition arrived_env :: extern where
  "arrived_env = demo_env\<lparr>interleave := [atomic_inc 1]\<rparr>"

text \<open>
  \<open>unmarked_state\<close> is the example process before the dispatcher has run. In
  \<open>arrived_env\<close> the second thread arrives (the barrier is incremented) between the
  leader's first and second poll; in \<open>failing_env\<close> the signal capture then fails with
  \<open>- 5\<close>.
\<close>

definition after_timeout :: kstate where
  "after_timeout = outcome_state (snd (checkpoint_thread demo_env 1 1 demo_state))"

definition after_late_arrival :: kstate where
  "after_late_arrival = outcome_state (snd (checkpoint_thread demo_env 2 2 after_timeout))"

text \<open>
  \<open>after_timeout\<close> is the kernel state when the leader of the example process has run
  \<^verbatim>\<open>checkpoint_thread\<close> in \<open>demo_env\<close>, where the second thread does not arrive in time;
  \<open>after_late_arrival\<close> is the state when the second thread has then entered
  \<^verbatim>\<open>checkpoint_thread\<close> itself.
\<close>

section \<open>Proofs\<close>

subsection \<open>Capture calls in a trace\<close>

lemma captures_Nil [simp]: "captures [] = 0"
  by (simp add: captures_def)

lemma captures_Cons [simp]: "captures (e # evs) = (if is_capture e then 1 else 0) + captures evs"
  by (simp add: captures_def)

lemma captures_append [simp]: "captures (xs @ ys) = captures xs + captures ys"
  by (simp add: captures_def)

lemma captures_zero_iff: "captures evs = 0 \<longleftrightarrow> (\<forall>e \<in> set evs. \<not> is_capture e)"
  by (induction evs) auto

lemma captures_paranoid [simp]: "captures (paranoid_state_check X leader s) = 0"
  by (auto simp: captures_zero_iff paranoid_state_check_def)

lemma captures_save_threads:
  "save_threads X s ts i arr = (evs, arr', ok) \<Longrightarrow> captures evs = 0"
proof (induction ts arbitrary: i arr evs arr' ok)
  case Nil
  then show ?case by simp
next
  case (Cons t ts)
  then show ?case
    by (auto simp: Let_def split: if_splits prod.splits)
qed

lemma captures_inner [simp]: "captures (fst (do_checkpoint_process_inner X leader s)) = 0"
  by (auto simp: do_checkpoint_process_inner_def Let_def captures_save_threads
           split: option.splits prod.splits)

lemma captures_do_checkpoint_process [simp]:
  "captures (fst (do_checkpoint_process X leader s)) = 0"
proof -
  obtain evs out ps where inner: "do_checkpoint_process_inner X leader s = (evs, out, ps)"
    by (cases "do_checkpoint_process_inner X leader s") auto
  from captures_inner [of X leader s] inner have "captures evs = 0" by simp
  with inner show ?thesis
    by (cases out) (simp_all add: do_checkpoint_process_def)
qed

lemma captures_wake_loop:
  "wake_up_thread_group_loop X leader ts s = (evs, s') \<Longrightarrow> captures evs = 0"
  by (induction ts arbitrary: s evs s') (auto simp: Let_def split: prod.splits if_splits)

lemma captures_wake_up_thread_group [simp]:
  "captures (fst (wake_up_thread_group X leader s)) = 0"
proof -
  obtain evs s' where l: "wake_up_thread_group_loop X leader (thread_group (mem s leader)) s = (evs, s')"
    by (cases "wake_up_thread_group_loop X leader (thread_group (mem s leader)) s") auto
  from captures_wake_loop [OF l] have "captures evs = 0" .
  with l show ?thesis by (simp add: wake_up_thread_group_def)
qed

lemma captures_timeout_loop:
  "barrier_timeout_wakeup_loop X ts i s = (evs, s') \<Longrightarrow> captures evs = 0"
  by (induction ts arbitrary: i s evs s') (auto simp: Let_def split: prod.splits)

lemma captures_barrier_timeout_wakeup [simp]:
  "captures (fst (barrier_timeout_wakeup X leader s)) = 0"
proof -
  obtain evs s' where l: "barrier_timeout_wakeup_loop X (thread_group (mem s leader)) 0 s = (evs, s')"
    by (cases "barrier_timeout_wakeup_loop X (thread_group (mem s leader)) 0 s") auto
  from captures_timeout_loop [OF l] have "captures evs = 0" .
  with l show ?thesis by (simp add: barrier_timeout_wakeup_def)
qed

lemma checkpoint_thread_non_leader:
  assumes "p \<noteq> group_leader (mem s p)"
  shows "checkpoint_thread X cur p s =
     (if \<not> need_checkpoint (mem s p) then ([DebugEnter (pid (mem s p)) (tgid (mem s p))], Bug s)
      else case schedule X (set_state cur (TASK_CHECKPOINTING X) (atomic_inc (group_leader (mem s p)) s)) of
        None \<Rightarrow> ([DebugEnter (pid (mem s p)) (tgid (mem s p)), AtomicInc (group_leader (mem s p)), Schedule],
                 Blocked (set_state cur (TASK_CHECKPOINTING X) (atomic_inc (group_leader (mem s p)) s)))
      | Some s3 \<Rightarrow> ([DebugEnter (pid (mem s p)) (tgid (mem s p)), AtomicInc (group_leader (mem s p)), Schedule, ClearTskThreadFlag p],
                 Returned 0 (set_need_checkpoint p False (set_state cur (state (mem s p)) s3))))"
  using assms by (simp add: checkpoint_thread_def Let_def split: option.splits)

lemma captures_checkpoint_thread_le: "captures (fst (checkpoint_thread X cur p s)) \<le> 1"
proof (cases "p = group_leader (mem s p)")
  case False
  then show ?thesis
    by (simp add: checkpoint_thread_non_leader split: option.splits)
next
  case True
  show ?thesis
  proof (cases "need_checkpoint (mem s p)")
    case False
    then show ?thesis by (simp add: checkpoint_thread_def)
  next
    case flag: True
    let ?s1 = "atomic_inc p s"
    let ?b = "barrier_poll X p (jiffies ?s1 + msecs_to_jiffies X (checkpoint_barrier_timeout_msec ?s1)) (interleave X) ?s1"
    show ?thesis
    proof (cases ?b)
      case (AllArrived s2)
      obtain evc out where c: "do_checkpoint_process X p s2 = (evc, out)"
        by (cases "do_checkpoint_process X p s2") auto
      from captures_do_checkpoint_process [of X p s2] c have evc: "captures evc = 0" by simp
      show ?thesis
      proof (cases out)
        case (Returned ret s3)
        obtain evw s4 where w: "wake_up_thread_group X p s3 = (evw, s4)"
          by (cases "wake_up_thread_group X p s3") auto
        from captures_wake_up_thread_group [of X p s3] w have "captures evw = 0" by simp
        with True flag AllArrived c evc Returned w show ?thesis
          by (simp add: checkpoint_thread_def Let_def)
      qed (use True flag AllArrived c evc in \<open>simp_all add: checkpoint_thread_def Let_def\<close>)
    next
      case (TimedOut s2)
      obtain evw s3 where w: "barrier_timeout_wakeup X p s2 = (evw, s3)"
        by (cases "barrier_timeout_wakeup X p s2") auto
      from captures_barrier_timeout_wakeup [of X p s2] w have "captures evw = 0" by simp
      with True flag TimedOut w show ?thesis
        by (simp add: checkpoint_thread_def Let_def)
    next
      case (StillPolling s2)
      with True flag show ?thesis
        by (simp add: checkpoint_thread_def Let_def)
    qed
  qed
qed


subsection \<open>What the loops leave unchanged\<close>

lemma wake_up_state_mem:
  "wake_up_state X t m s = (w, s') \<Longrightarrow>
     mem s' u = (if u = t \<and> w then (mem s u)\<lparr>state := TASK_RUNNING X\<rparr> else mem s u)"
  by (auto simp: wake_up_state_def set_state_def split: if_splits)

lemma wake_up_state_result:
  "wake_up_state X t m s = (w, s') \<Longrightarrow> w = (state (mem s t) AND m \<noteq> 0)"
  by (auto simp: wake_up_state_def split: if_splits)

lemma checkpoint_process_loop_frame:
  "checkpoint_process_loop X ts s = (evs, s') \<Longrightarrow>
     pid (mem s' u) = pid (mem s u) \<and> tgid (mem s' u) = tgid (mem s u) \<and>
     group_leader (mem s' u) = group_leader (mem s u) \<and>
     process_barrier (mem s' u) = process_barrier (mem s u) \<and>
     nr_threads (mem s' u) = nr_threads (mem s u) \<and>
     thread_group (mem s' u) = thread_group (mem s u) \<and>
     (need_checkpoint (mem s u) \<or> u \<in> set ts \<longrightarrow> need_checkpoint (mem s' u)) \<and>
     (u \<notin> set ts \<longrightarrow> mem s' u = mem s u)"
proof (induction ts arbitrary: s evs s')
  case Nil
  then show ?case by simp
next
  case (Cons t ts)
  obtain w s2 where w: "wake_up_state X t (TASK_ALL X) (set_need_checkpoint t True s) = (w, s2)"
    by (cases "wake_up_state X t (TASK_ALL X) (set_need_checkpoint t True s)") auto
  obtain evs' s3 where l: "checkpoint_process_loop X ts s2 = (evs', s3)"
    by (cases "checkpoint_process_loop X ts s2") auto
  from Cons.prems w l have s': "s' = s3" by (simp add: Let_def)
  note m = wake_up_state_mem [OF w, of u]
  from Cons.IH [OF l] m show ?case
    unfolding s' by (auto simp: set_need_checkpoint_def split: if_splits)
qed

subsection \<open>Unfolding the model on concrete inputs\<close>

lemmas demo_defs = demo_env_def demo_state_def demo_mem_def tick_def
  checkpoint_barrier_timeout_msec_default_def

lemmas model_defs = checkpoint_thread_def Let_def atomic_inc_def atomic_set_def set_state_def
  set_need_checkpoint_def wake_up_state_def barrier_timeout_wakeup_def wake_up_thread_group_def
  do_checkpoint_process_def do_checkpoint_process_inner_def paranoid_state_check_def kfree_def
  checkpoint_process_def sys_checkpoint_process_def

subsection \<open>The barrier timeout defaults\<close>

text \<open>
  Claim C7 says that the default of the barrier timeout in a debug build is strictly
  shorter than the default in a non-debug build. The initialisers say the opposite:
  with \<^verbatim>\<open>CONFIG_CHECKPOINT_DEBUG\<close> the default is \<^verbatim>\<open>5 * MSEC_PER_SEC\<close>, without it 500.
\<close>

theorem debug_timeout_shorter_counterexample:
  "\<not> checkpoint_barrier_timeout_msec_default True < checkpoint_barrier_timeout_msec_default False"
  by (simp add: checkpoint_barrier_timeout_msec_default_def MSEC_PER_SEC_def)

text \<open>
  Claim C7, amended: the default in a debug build is 5000 ms and the default in a
  non-debug build is 500 ms, so the debug default is strictly longer.
\<close>

theorem debug_timeout_longer:
  "checkpoint_barrier_timeout_msec_default True = 5000 \<and>
   checkpoint_barrier_timeout_msec_default False = 500 \<and>
   checkpoint_barrier_timeout_msec_default False < checkpoint_barrier_timeout_msec_default True"
  by (simp add: checkpoint_barrier_timeout_msec_default_def MSEC_PER_SEC_def)

subsection \<open>The run state of a parked thread\<close>

text \<open>
  Claim C5: a thread that is not the group leader, has been marked, calls
  \<^verbatim>\<open>checkpoint_thread\<close> on itself and is run again after parking, returns 0 with the
  run state it had on entry, whatever the rest of the system did to the kernel state
  while it was parked.
\<close>

theorem run_state_round_trip:
  assumes "need_checkpoint (mem s p)"
    and "p \<noteq> group_leader (mem s p)"
    and "schedule X (set_state p (TASK_CHECKPOINTING X) (atomic_inc (group_leader (mem s p)) s)) = Some s3"
  shows "\<exists>evs s'. checkpoint_thread X p p s = (evs, Returned 0 s') \<and>
           state (mem s' p) = state (mem s p)"
  using assms by (simp add: checkpoint_thread_non_leader set_need_checkpoint_def set_state_def)

text \<open>The second thread of the example process, parked and then woken.\<close>

theorem run_state_round_trip_witness:
  "\<exists>evs s'. checkpoint_thread (demo_env\<lparr>schedule := (\<lambda>s. Some (set_state 2 0 s))\<rparr>) 2 2 demo_state
       = (evs, Returned 0 s') \<and> state (mem s' 2) = 1"
proof -
  let ?X = "demo_env\<lparr>schedule := (\<lambda>s. Some (set_state 2 0 s))\<rparr>"
  have a: "need_checkpoint (mem demo_state 2)" by (simp add: demo_defs)
  have b: "2 \<noteq> group_leader (mem demo_state 2)" by (simp add: demo_defs)
  have c: "schedule ?X (set_state 2 (TASK_CHECKPOINTING ?X)
             (atomic_inc (group_leader (mem demo_state 2)) demo_state))
           = Some (set_state 2 0 (set_state 2 (TASK_CHECKPOINTING ?X)
             (atomic_inc (group_leader (mem demo_state 2)) demo_state)))"
    by (simp add: demo_defs)
  have d: "state (mem demo_state 2) = 1" by (simp add: demo_defs)
  from run_state_round_trip [OF a b c] d show ?thesis by simp
qed

subsection \<open>Failure of the signal capture\<close>

text \<open>
  Claim C2: when the array was allocated, \<^verbatim>\<open>save_open_files\<close> returned 0 and
  \<^verbatim>\<open>save_signals\<close> returned \<open>e \<noteq> 0\<close>, then \<^verbatim>\<open>__do_checkpoint_process\<close> calls
  \<^verbatim>\<open>revert_save_open_files\<close> exactly once, frees the array exactly once, returns \<open>e\<close>
  (and so does \<^verbatim>\<open>do_checkpoint_process\<close>), and leaves neither a snapshot nor the array.
\<close>

theorem signal_failure_reverts_files:
  assumes "kmalloc X s (sint (nr_threads (mem s leader))) = Some a"
    and "save_open_files X leader = 0"
    and "save_signals X leader = e"
    and "e \<noteq> 0"
  shows "do_checkpoint_process_inner X leader s =
           (paranoid_state_check X leader s @
              [Kmalloc (sint (nr_threads (mem s leader))), SaveOpenFiles leader,
               SaveSignals leader, RevertSaveOpenFiles leader, Kfree a],
            Returned e (s\<lparr>heap := (heap s)(a := None)\<rparr>), None)
         \<and> count_list (fst (do_checkpoint_process_inner X leader s)) (RevertSaveOpenFiles leader) = 1
         \<and> count_list (fst (do_checkpoint_process_inner X leader s)) (Kfree a) = 1
         \<and> heap (outcome_state (fst (snd (do_checkpoint_process_inner X leader s)))) a = None
         \<and> snd (do_checkpoint_process X leader s) = Returned e (s\<lparr>heap := (heap s)(a := None)\<rparr>)"
proof -
  have tr: "do_checkpoint_process_inner X leader s =
           (paranoid_state_check X leader s @
              [Kmalloc (sint (nr_threads (mem s leader))), SaveOpenFiles leader,
               SaveSignals leader, RevertSaveOpenFiles leader, Kfree a],
            Returned e (s\<lparr>heap := (heap s)(a := None)\<rparr>), None)"
    using assms by (simp add: do_checkpoint_process_inner_def Let_def kfree_def)
  have p1: "count_list (paranoid_state_check X leader s) (RevertSaveOpenFiles leader) = 0"
    by (auto simp: paranoid_state_check_def count_list_0_iff)
  have p2: "count_list (paranoid_state_check X leader s) (Kfree a) = 0"
    by (auto simp: paranoid_state_check_def count_list_0_iff)
  show ?thesis
    unfolding tr using p1 p2 by (simp add: do_checkpoint_process_def tr)
qed

text \<open>The example process with a signal capture that fails with \<open>- 5\<close>.\<close>

theorem signal_failure_reverts_files_witness:
  "count_list (fst (do_checkpoint_process_inner (demo_env\<lparr>save_signals := (\<lambda>t. - 5)\<rparr>) 1 demo_state))
      (RevertSaveOpenFiles 1) = 1
   \<and> snd (do_checkpoint_process (demo_env\<lparr>save_signals := (\<lambda>t. - 5)\<rparr>) 1 demo_state)
       = Returned (- 5) demo_state"
proof -
  let ?X = "demo_env\<lparr>save_signals := (\<lambda>t. - 5)\<rparr>"
  have a: "kmalloc ?X demo_state (sint (nr_threads (mem demo_state 1))) = Some 7"
    by (simp add: demo_defs)
  have b: "save_open_files ?X 1 = 0" by (simp add: demo_defs)
  have c: "save_signals ?X 1 = - 5" by (simp add: demo_defs)
  have d: "(- 5 :: int) \<noteq> 0" by simp
  have e: "demo_state\<lparr>heap := (heap demo_state)(7 := None)\<rparr> = demo_state"
    by (simp add: demo_defs)
  from signal_failure_reverts_files [OF a b c d, unfolded e] show ?thesis by blast
qed

subsection \<open>Outcomes of the leader's call\<close>

lemma inner_outcome:
  "do_checkpoint_process_inner X leader s = (evs, out, ps) \<Longrightarrow>
     (\<exists>r s'. out = Returned r s') \<or> (\<exists>s'. out = Fault s')"
  by (auto simp: do_checkpoint_process_inner_def Let_def split: option.splits prod.splits if_splits)

lemma do_checkpoint_process_outcome:
  assumes "do_checkpoint_process X leader s = (evs, out)"
  shows "(\<exists>r s'. out = Returned r s') \<or> (\<exists>s'. out = Fault s')"
proof -
  obtain evs0 out0 ps where i: "do_checkpoint_process_inner X leader s = (evs0, out0, ps)"
    by (cases "do_checkpoint_process_inner X leader s") auto
  from inner_outcome [OF i] assms i show ?thesis
    by (auto simp: do_checkpoint_process_def)
qed

lemma checkpoint_thread_returns_zero:
  assumes "snd (checkpoint_thread X cur p s) = Returned r s'"
  shows "r = 0"
  using assms
  by (auto simp: checkpoint_thread_def Let_def
      split: if_splits option.splits barrier.splits prod.splits outcome.splits)

lemma checkpoint_thread_no_bug:
  assumes "need_checkpoint (mem s p)"
  shows "snd (checkpoint_thread X cur p s) \<noteq> Bug s'"
  using assms
  by (auto simp: checkpoint_thread_def Let_def
      dest: do_checkpoint_process_outcome
      split: if_splits option.splits barrier.splits prod.splits outcome.splits)

lemma checkpoint_thread_leader_arrived:
  assumes "p = group_leader (mem s p)" and "need_checkpoint (mem s p)"
    and "barrier_poll X p (jiffies (atomic_inc p s) +
            msecs_to_jiffies X (checkpoint_barrier_timeout_msec (atomic_inc p s)))
           (interleave X) (atomic_inc p s) = AllArrived s2"
    and "do_checkpoint_process X p s2 = (evc, Returned ret s3)"
    and "wake_up_thread_group X p s3 = (evw, s4)"
  shows "checkpoint_thread X cur p s =
           ([DebugEnter (pid (mem s p)) (tgid (mem s p)), AtomicInc p, DebugElapsed,
             DoCheckpointProcess p] @ evc @ evw @ [AtomicSet p 0, ClearTskThreadFlag p],
            Returned 0 (set_need_checkpoint p False (atomic_set p 0 s4)))"
  using assms(2-) assms(1) [symmetric] by (simp add: checkpoint_thread_def Let_def)

lemma checkpoint_thread_leader_timeout:
  assumes "p = group_leader (mem s p)" and "need_checkpoint (mem s p)"
    and "barrier_poll X p (jiffies (atomic_inc p s) +
            msecs_to_jiffies X (checkpoint_barrier_timeout_msec (atomic_inc p s)))
           (interleave X) (atomic_inc p s) = TimedOut s2"
    and "barrier_timeout_wakeup X p s2 = (evw, s3)"
  shows "checkpoint_thread X cur p s =
           ([DebugEnter (pid (mem s p)) (tgid (mem s p)), AtomicInc p] @ evw @
              [AtomicSet p 0, ClearTskThreadFlag p],
            Returned 0 (set_need_checkpoint p False (atomic_set p 0 s3)))"
  using assms(2-) assms(1) [symmetric] by (simp add: checkpoint_thread_def Let_def)

subsection \<open>The flag asserted on entry\<close>

text \<open>
  Claim C10: \<^verbatim>\<open>checkpoint_thread\<close> requires \<^verbatim>\<open>TIF_NEED_CHECKPOINT\<close> on entry. Called for
  a thread without the flag it stops in \<^verbatim>\<open>BUG_ON\<close> after the debug line, with the kernel
  state untouched; called for a thread with the flag, the assertion does not fire. Every
  thread of the group has the flag when the dispatcher \<^verbatim>\<open>checkpoint_process\<close> is done, so
  the assertion does not fire for a thread that enters \<^verbatim>\<open>checkpoint_thread\<close> in that state.
\<close>

theorem need_checkpoint_is_asserted:
  "(\<not> need_checkpoint (mem s p) \<longrightarrow>
      checkpoint_thread X cur p s = ([DebugEnter (pid (mem s p)) (tgid (mem s p))], Bug s))
   \<and> (need_checkpoint (mem s p) \<longrightarrow> snd (checkpoint_thread X cur p s) \<noteq> Bug s')
   \<and> (t \<in> set (thread_group (mem s0 q)) \<longrightarrow>
        need_checkpoint (mem (snd (snd (checkpoint_process Y q s0))) t) \<and>
        snd (checkpoint_thread X cur t (snd (snd (checkpoint_process Y q s0)))) \<noteq> Bug s')"
proof (intro conjI impI)
  assume "\<not> need_checkpoint (mem s p)"
  then show "checkpoint_thread X cur p s = ([DebugEnter (pid (mem s p)) (tgid (mem s p))], Bug s)"
    by (simp add: checkpoint_thread_def)
next
  assume "need_checkpoint (mem s p)"
  then show "snd (checkpoint_thread X cur p s) \<noteq> Bug s'"
    by (rule checkpoint_thread_no_bug)
next
  assume t: "t \<in> set (thread_group (mem s0 q))"
  obtain evs s1 where l: "checkpoint_process_loop Y (thread_group (mem s0 q)) s0 = (evs, s1)"
    by (cases "checkpoint_process_loop Y (thread_group (mem s0 q)) s0") auto
  from checkpoint_process_loop_frame [OF l, of t] t have "need_checkpoint (mem s1 t)" by simp
  with l show f: "need_checkpoint (mem (snd (snd (checkpoint_process Y q s0))) t)"
    by (simp add: checkpoint_process_def)
  then show "snd (checkpoint_thread X cur t (snd (snd (checkpoint_process Y q s0)))) \<noteq> Bug s'"
    by (rule checkpoint_thread_no_bug)
qed

text \<open>
  The second thread of the example process, first without the flag, then with it, then
  after the dispatcher has run on the unmarked process.
\<close>

theorem need_checkpoint_is_asserted_witness:
  "checkpoint_thread demo_env 2 2 unmarked_state = ([DebugEnter 101 100], Bug unmarked_state)
   \<and> need_checkpoint (mem demo_state 2)
   \<and> snd (checkpoint_thread demo_env 2 2 demo_state) \<noteq> Bug demo_state
   \<and> 2 \<in> set (thread_group (mem unmarked_state 1))
   \<and> need_checkpoint (mem (snd (snd (checkpoint_process demo_env 1 unmarked_state))) 2)
   \<and> snd (checkpoint_thread demo_env 2 2 (snd (snd (checkpoint_process demo_env 1 unmarked_state))))
        \<noteq> Bug demo_state"
proof -
  have a: "\<not> need_checkpoint (mem unmarked_state 2)"
    by (simp add: unmarked_state_def demo_defs)
  have b: "need_checkpoint (mem demo_state 2)"
    by (simp add: demo_defs)
  have c: "2 \<in> set (thread_group (mem unmarked_state 1))"
    by (simp add: unmarked_state_def demo_defs)
  have d: "pid (mem unmarked_state 2) = 101" "tgid (mem unmarked_state 2) = 100"
    by (simp_all add: unmarked_state_def demo_defs)
  from need_checkpoint_is_asserted [of unmarked_state 2 demo_env 2 demo_state 2 unmarked_state 1 demo_env]
    need_checkpoint_is_asserted [of demo_state 2 demo_env 2 demo_state 2 unmarked_state 1 demo_env]
    a b c d
  show ?thesis by simp
qed

subsection \<open>What the trigger reports\<close>

text \<open>
  Claim C9: the system call returns \<open>- ESRCH\<close>, which is not 0, exactly when the lookup
  of the pid fails, and 0 otherwise, whatever the environment does afterwards.
  \<^verbatim>\<open>checkpoint_thread\<close> returns 0 whenever it returns; in particular, when all threads
  have arrived and \<^verbatim>\<open>do_checkpoint_process\<close> returns any \<open>ret\<close>, the leader's call
  returns 0.
\<close>

theorem trigger_reports_only_lookup:
  "fst (snd (sys_checkpoint_process X pid_arg s)) = (if pidhash s pid_arg = None then - ESRCH else 0)
   \<and> - ESRCH \<noteq> 0
   \<and> (snd (checkpoint_thread Y cur p s0) = Returned r s1 \<longrightarrow> r = 0)
   \<and> (p = group_leader (mem s0 p) \<and> need_checkpoint (mem s0 p) \<and>
       barrier_poll Y p (jiffies (atomic_inc p s0) +
            msecs_to_jiffies Y (checkpoint_barrier_timeout_msec (atomic_inc p s0)))
           (interleave Y) (atomic_inc p s0) = AllArrived s2 \<and>
       snd (do_checkpoint_process Y p s2) = Returned ret s3
       \<longrightarrow> (\<exists>s4. snd (checkpoint_thread Y cur p s0) = Returned 0 s4))"
proof (intro conjI impI)
  show "fst (snd (sys_checkpoint_process X pid_arg s)) = (if pidhash s pid_arg = None then - ESRCH else 0)"
    by (simp add: sys_checkpoint_process_def checkpoint_process_def Let_def
        split: option.splits prod.splits)
  show "- ESRCH \<noteq> 0" by (simp add: ESRCH_def)
next
  assume "snd (checkpoint_thread Y cur p s0) = Returned r s1"
  then show "r = 0" by (rule checkpoint_thread_returns_zero)
next
  assume h: "p = group_leader (mem s0 p) \<and> need_checkpoint (mem s0 p) \<and>
       barrier_poll Y p (jiffies (atomic_inc p s0) +
            msecs_to_jiffies Y (checkpoint_barrier_timeout_msec (atomic_inc p s0)))
           (interleave Y) (atomic_inc p s0) = AllArrived s2 \<and>
       snd (do_checkpoint_process Y p s2) = Returned ret s3"
  obtain evc where c: "do_checkpoint_process Y p s2 = (evc, Returned ret s3)"
    using h by (cases "do_checkpoint_process Y p s2") auto
  obtain evw s4 where w: "wake_up_thread_group Y p s3 = (evw, s4)"
    by (cases "wake_up_thread_group Y p s3") auto
  from h have l: "p = group_leader (mem s0 p)" and f: "need_checkpoint (mem s0 p)"
    and b: "barrier_poll Y p (jiffies (atomic_inc p s0) +
            msecs_to_jiffies Y (checkpoint_barrier_timeout_msec (atomic_inc p s0)))
           (interleave Y) (atomic_inc p s0) = AllArrived s2"
    by simp_all
  show "\<exists>s4. snd (checkpoint_thread Y cur p s0) = Returned 0 s4"
    by (simp add: checkpoint_thread_leader_arrived [OF l f b c w])
qed

text \<open>
  An unknown pid, the pid of the example process, and a leader whose capture fails
  with \<open>- 5\<close>.
\<close>

theorem trigger_reports_only_lookup_witness:
  "fst (snd (sys_checkpoint_process demo_env 999 demo_state)) = - 3
   \<and> fst (snd (sys_checkpoint_process demo_env 100 demo_state)) = 0
   \<and> snd (do_checkpoint_process failing_env 1 (atomic_inc 1 (atomic_inc 1 demo_state)))
        = Returned (- 5) (atomic_inc 1 (atomic_inc 1 demo_state))
   \<and> (\<exists>s4. snd (checkpoint_thread failing_env 1 1 demo_state) = Returned 0 s4)"
proof -
  let ?s2 = "atomic_inc 1 (atomic_inc 1 demo_state)"
  have a: "pidhash demo_state 999 = None" "pidhash demo_state 100 \<noteq> None"
    by (simp_all add: demo_defs)
  have l: "1 = group_leader (mem demo_state 1)" and f: "need_checkpoint (mem demo_state 1)"
    by (simp_all add: demo_defs)
  have b: "barrier_poll failing_env 1 (jiffies (atomic_inc 1 demo_state) +
            msecs_to_jiffies failing_env (checkpoint_barrier_timeout_msec (atomic_inc 1 demo_state)))
           (interleave failing_env) (atomic_inc 1 demo_state) = AllArrived ?s2"
    by (simp add: failing_env_def demo_defs atomic_inc_def)
  have c: "snd (do_checkpoint_process failing_env 1 ?s2) = Returned (- 5) ?s2"
    by (simp add: failing_env_def demo_defs model_defs)
  from trigger_reports_only_lookup [of demo_env 999 demo_state failing_env 1 1 demo_state 0 demo_state ?s2 "- 5" ?s2]
    trigger_reports_only_lookup [of demo_env 100 demo_state failing_env 1 1 demo_state 0 demo_state ?s2 "- 5" ?s2]
    a l f b c
  show ?thesis by (simp add: ESRCH_def)
qed

subsection \<open>Who captures\<close>

lemma captures_non_leader:
  "p \<noteq> group_leader (mem s p) \<Longrightarrow> captures (fst (checkpoint_thread X cur p s)) = 0"
  by (simp add: checkpoint_thread_non_leader split: option.splits)

lemma attempt_captures_bound:
  assumes "distinct (map (fst \<circ> snd) calls)"
    and "\<forall>c \<in> set calls. group_leader (mem (snd (snd c)) (fst (snd c))) = L"
  shows "sum_list (map (\<lambda>(X, p, s). captures (fst (checkpoint_thread X p p s))) calls)
           \<le> (if L \<in> set (map (fst \<circ> snd) calls) then 1 else 0)"
  using assms
proof (induction calls)
  case Nil
  then show ?case by simp
next
  case (Cons c calls)
  obtain X p s where c: "c = (X, p, s)" by (cases c) auto
  from Cons.prems c have L: "group_leader (mem s p) = L" by simp
  from Cons.prems have IH: "sum_list (map (\<lambda>(X, p, s). captures (fst (checkpoint_thread X p p s))) calls)
           \<le> (if L \<in> set (map (fst \<circ> snd) calls) then 1 else 0)"
    by (intro Cons.IH) simp_all
  show ?case
  proof (cases "p = L")
    case True
    with Cons.prems c have "L \<notin> set (map (fst \<circ> snd) calls)" by simp
    with IH have "sum_list (map (\<lambda>(X, p, s). captures (fst (checkpoint_thread X p p s))) calls) \<le> 0"
      by (simp only: if_False)
    with captures_checkpoint_thread_le [of X p p s] c True show ?thesis
      by (simp del: sum_list_eq_0_iff)
  next
    case False
    with L have "captures (fst (checkpoint_thread X p p s)) = 0"
      by (simp add: captures_non_leader)
    with IH c False show ?thesis by simp
  qed
qed

text \<open>
  Claim C1: take one attempt on a process with leader \<open>L\<close>, that is, calls of
  \<^verbatim>\<open>checkpoint_thread\<close> by pairwise different threads of the group on themselves, each
  in whatever kernel state and environment it meets. All the calls together invoke
  \<^verbatim>\<open>do_checkpoint_process\<close> at most once, each call at most once, and a call by a thread
  other than the leader not at all: such a thread, when marked, increments the barrier
  of \<open>L\<close>, parks in \<^verbatim>\<open>schedule()\<close>, and either returns 0 or stays parked.
\<close>

theorem capture_only_by_leader:
  assumes "distinct (map (fst \<circ> snd) calls)"
    and "\<forall>c \<in> set calls. group_leader (mem (snd (snd c)) (fst (snd c))) = L"
  shows "sum_list (map (\<lambda>(X, p, s). captures (fst (checkpoint_thread X p p s))) calls) \<le> 1
       \<and> (\<forall>(X, p, s) \<in> set calls.
            captures (fst (checkpoint_thread X p p s)) \<le> 1 \<and>
            (p \<noteq> L \<longrightarrow> captures (fst (checkpoint_thread X p p s)) = 0) \<and>
            (p \<noteq> L \<and> need_checkpoint (mem s p) \<longrightarrow>
               take 3 (fst (checkpoint_thread X p p s)) =
                 [DebugEnter (pid (mem s p)) (tgid (mem s p)), AtomicInc L, Schedule] \<and>
               (case snd (checkpoint_thread X p p s) of
                  Returned r s' \<Rightarrow> r = 0 | Blocked s' \<Rightarrow> True | _ \<Rightarrow> False)))"
proof (intro conjI)
  have "(if L \<in> set (map (fst \<circ> snd) calls) then 1 else 0) \<le> (1::nat)" by simp
  with attempt_captures_bound [OF assms]
  show "sum_list (map (\<lambda>(X, p, s). captures (fst (checkpoint_thread X p p s))) calls) \<le> 1"
    by (rule order_trans)
  show "\<forall>(X, p, s) \<in> set calls.
            captures (fst (checkpoint_thread X p p s)) \<le> 1 \<and>
            (p \<noteq> L \<longrightarrow> captures (fst (checkpoint_thread X p p s)) = 0) \<and>
            (p \<noteq> L \<and> need_checkpoint (mem s p) \<longrightarrow>
               take 3 (fst (checkpoint_thread X p p s)) =
                 [DebugEnter (pid (mem s p)) (tgid (mem s p)), AtomicInc L, Schedule] \<and>
               (case snd (checkpoint_thread X p p s) of
                  Returned r s' \<Rightarrow> r = 0 | Blocked s' \<Rightarrow> True | _ \<Rightarrow> False))"
  proof (clarify, intro conjI impI)
    fix X p s assume c: "(X, p, s) \<in> set calls"
    with assms(2) have L: "group_leader (mem s p) = L" by force
    show "captures (fst (checkpoint_thread X p p s)) \<le> 1"
      by (rule captures_checkpoint_thread_le)
    { assume "p \<noteq> L"
      with L show "captures (fst (checkpoint_thread X p p s)) = 0"
        by (simp add: captures_non_leader) }
    { assume h: "p \<noteq> L \<and> need_checkpoint (mem s p)"
      with L show "take 3 (fst (checkpoint_thread X p p s)) =
                 [DebugEnter (pid (mem s p)) (tgid (mem s p)), AtomicInc L, Schedule]"
        by (simp add: checkpoint_thread_non_leader split: option.splits)
      from h L show "case snd (checkpoint_thread X p p s) of
                  Returned r s' \<Rightarrow> r = 0 | Blocked s' \<Rightarrow> True | _ \<Rightarrow> False"
        by (simp add: checkpoint_thread_non_leader split: option.splits) }
  qed
qed

text \<open>
  The two threads of the example process; the second thread arrives while the leader
  polls.
\<close>

theorem capture_only_by_leader_witness:
  "distinct (map (fst \<circ> snd) [(demo_env, 2 :: task_ptr, demo_state), (arrived_env, 1, demo_state)])
   \<and> captures (fst (checkpoint_thread demo_env 2 2 demo_state))
      + captures (fst (checkpoint_thread arrived_env 1 1 demo_state)) \<le> 1
   \<and> captures (fst (checkpoint_thread arrived_env 1 1 demo_state)) = 1
   \<and> captures (fst (checkpoint_thread demo_env 2 2 demo_state)) = 0
   \<and> take 3 (fst (checkpoint_thread demo_env 2 2 demo_state)) = [DebugEnter 101 100, AtomicInc 1, Schedule]"
proof -
  let ?calls = "[(demo_env, 2 :: task_ptr, demo_state), (arrived_env, 1, demo_state)]"
  have a: "distinct (map (fst \<circ> snd) ?calls)" by simp
  have b: "\<forall>c \<in> set ?calls. group_leader (mem (snd (snd c)) (fst (snd c))) = 1"
    by (simp add: demo_defs)
  have c: "need_checkpoint (mem demo_state 2)" "pid (mem demo_state 2) = 101"
    "tgid (mem demo_state 2) = 100"
    by (simp_all add: demo_defs)
  have d: "captures (fst (checkpoint_thread arrived_env 1 1 demo_state)) = 1"
    by (simp add: arrived_env_def demo_defs model_defs numeral_2_eq_2)
  from capture_only_by_leader [OF a b] a c d show ?thesis by simp
qed

subsection \<open>The dispatcher\<close>

lemma spec_dispatch_events_cong:
  "(\<And>t. pid (mem s t) = pid (mem s' t) \<and> tgid (mem s t) = tgid (mem s' t)) \<Longrightarrow>
     spec_dispatch_events X s tws = spec_dispatch_events X s' tws"
  by (induction tws) auto

lemma checkpoint_process_loop_trace:
  "checkpoint_process_loop X ts s = (evs, s') \<Longrightarrow>
     \<exists>ws. length ws = length ts \<and> evs = spec_dispatch_events X s (zip ts ws) \<and>
          (distinct ts \<longrightarrow> ws = map (\<lambda>t. state (mem s t) AND TASK_ALL X \<noteq> 0) ts)"
proof (induction ts arbitrary: s evs s')
  case Nil
  then show ?case by simp
next
  case (Cons t ts)
  let ?s1 = "set_need_checkpoint t True s"
  obtain w s2 where w: "wake_up_state X t (TASK_ALL X) ?s1 = (w, s2)"
    by (cases "wake_up_state X t (TASK_ALL X) ?s1") auto
  obtain evs' s3 where l: "checkpoint_process_loop X ts s2 = (evs', s3)"
    by (cases "checkpoint_process_loop X ts s2") auto
  from Cons.IH [OF l] obtain ws where ws: "length ws = length ts"
    "evs' = spec_dispatch_events X s2 (zip ts ws)"
    "distinct ts \<longrightarrow> ws = map (\<lambda>t. state (mem s2 t) AND TASK_ALL X \<noteq> 0) ts"
    by (elim exE conjE)
  have m: "\<And>u. mem s2 u = (if u = t \<and> w then (mem ?s1 u)\<lparr>state := TASK_RUNNING X\<rparr> else mem ?s1 u)"
    by (rule wake_up_state_mem [OF w])
  have same: "\<And>u. pid (mem s2 u) = pid (mem s u) \<and> tgid (mem s2 u) = tgid (mem s u)"
    by (simp add: m set_need_checkpoint_def)
  have other: "\<And>u. u \<noteq> t \<Longrightarrow> state (mem s2 u) = state (mem s u)"
    by (simp add: m set_need_checkpoint_def)
  have wv: "w = (state (mem s t) AND TASK_ALL X \<noteq> 0)"
    using wake_up_state_result [OF w] by (simp add: set_need_checkpoint_def)
  have ev: "evs = [DebugSetNeed (pid (mem s t)) (tgid (mem s t)), SetTskThreadFlag t,
                   WakeUpState t (TASK_ALL X) w] @ (if w then [] else [KickProcess t]) @ evs'"
    using Cons.prems w l by (auto simp: Let_def)
  have f1: "evs = spec_dispatch_events X s (zip (t # ts) (w # ws))"
    using ev ws(2) spec_dispatch_events_cong [of s2 s X "zip ts ws", OF same] by simp
  have f2: "distinct (t # ts) \<longrightarrow>
      w # ws = map (\<lambda>t. state (mem s t) AND TASK_ALL X \<noteq> 0) (t # ts)"
  proof
    assume d: "distinct (t # ts)"
    have "\<forall>u \<in> set ts. state (mem s2 u) = state (mem s u)"
    proof
      fix u assume "u \<in> set ts"
      with d have "u \<noteq> t" by auto
      then show "state (mem s2 u) = state (mem s u)" by (rule other)
    qed
    then have "map (\<lambda>t. state (mem s2 t) AND TASK_ALL X \<noteq> 0) ts =
               map (\<lambda>t. state (mem s t) AND TASK_ALL X \<noteq> 0) ts"
      by simp
    with d ws(3) wv show "w # ws = map (\<lambda>t. state (mem s t) AND TASK_ALL X \<noteq> 0) (t # ts)"
      by simp
  qed
  have f3: "length (w # ws) = length (t # ts)" using ws(1) by simp
  show ?case
  proof (intro exI [of _ "w # ws"] conjI)
    show "length (w # ws) = length (t # ts)" by (rule f3)
    show "evs = spec_dispatch_events X s (zip (t # ts) (w # ws))" by (rule f1)
    show "distinct (t # ts) \<longrightarrow>
      w # ws = map (\<lambda>t. state (mem s t) AND TASK_ALL X \<noteq> 0) (t # ts)" by (rule f2)
  qed
qed

text \<open>
  Claim C8: \<^verbatim>\<open>checkpoint_process\<close> returns 0 and its trace is the lock, then for every
  thread of the group in turn the flag set, the wake with \<^verbatim>\<open>TASK_ALL\<close> and, exactly when
  that wake reported \<open>False\<close>, the kick, then the unlock. Afterwards every thread of the
  group has the flag. When no thread is listed twice, the wake of a thread reports
  \<open>False\<close> exactly when the state it had before the call shares no bit with \<^verbatim>\<open>TASK_ALL\<close>.
\<close>

theorem dispatcher_marks_wakes_kicks:
  "\<exists>ws s'. length ws = length (thread_group (mem s p)) \<and>
      checkpoint_process X p s =
        ([SpinLockIrqsave] @ spec_dispatch_events X s (zip (thread_group (mem s p)) ws) @
         [SpinUnlockIrqrestore], 0, s') \<and>
      (\<forall>t \<in> set (thread_group (mem s p)). need_checkpoint (mem s' t)) \<and>
      (distinct (thread_group (mem s p)) \<longrightarrow>
         ws = map (\<lambda>t. state (mem s t) AND TASK_ALL X \<noteq> 0) (thread_group (mem s p)))"
proof -
  obtain evs s' where l: "checkpoint_process_loop X (thread_group (mem s p)) s = (evs, s')"
    by (cases "checkpoint_process_loop X (thread_group (mem s p)) s") auto
  from checkpoint_process_loop_trace [OF l] obtain ws where
    ws: "length ws = length (thread_group (mem s p))"
        "evs = spec_dispatch_events X s (zip (thread_group (mem s p)) ws)"
        "distinct (thread_group (mem s p)) \<longrightarrow>
           ws = map (\<lambda>t. state (mem s t) AND TASK_ALL X \<noteq> 0) (thread_group (mem s p))"
    by (elim exE conjE)
  have f: "\<forall>t \<in> set (thread_group (mem s p)). need_checkpoint (mem s' t)"
    using checkpoint_process_loop_frame [OF l] by simp
  have cp: "checkpoint_process X p s =
        ([SpinLockIrqsave] @ spec_dispatch_events X s (zip (thread_group (mem s p)) ws) @
         [SpinUnlockIrqrestore], 0, s')"
    using l ws(2) by (simp add: checkpoint_process_def)
  show ?thesis
    by (intro exI [of _ ws] exI [of _ s'] conjI) (rule ws(1) cp f ws(3))+
qed

text \<open>
  The example process before it is marked: the running leader is kicked, the sleeping
  second thread is woken.
\<close>

theorem dispatcher_marks_wakes_kicks_witness:
  "fst (checkpoint_process demo_env 1 unmarked_state) =
     [SpinLockIrqsave,
      DebugSetNeed 100 100, SetTskThreadFlag 1, WakeUpState 1 (- 1) False, KickProcess 1,
      DebugSetNeed 101 100, SetTskThreadFlag 2, WakeUpState 2 (- 1) True,
      SpinUnlockIrqrestore]
   \<and> need_checkpoint (mem (snd (snd (checkpoint_process demo_env 1 unmarked_state))) 1)
   \<and> need_checkpoint (mem (snd (snd (checkpoint_process demo_env 1 unmarked_state))) 2)"
proof -
  have tg: "thread_group (mem unmarked_state 1) = [1, 2]"
    by (simp add: unmarked_state_def demo_defs)
  have st: "map (\<lambda>t. state (mem unmarked_state t) AND TASK_ALL demo_env \<noteq> 0) [1, 2] = [False, True]"
    by (simp add: unmarked_state_def demo_defs)
  have pt: "pid (mem unmarked_state 1) = 100" "tgid (mem unmarked_state 1) = 100"
    "pid (mem unmarked_state 2) = 101" "tgid (mem unmarked_state 2) = 100"
    "TASK_ALL demo_env = - 1"
    by (simp_all add: unmarked_state_def demo_defs)
  from dispatcher_marks_wakes_kicks [of unmarked_state 1 demo_env]
  obtain ws s' where
    a: "checkpoint_process demo_env 1 unmarked_state =
        ([SpinLockIrqsave] @ spec_dispatch_events demo_env unmarked_state
            (zip (thread_group (mem unmarked_state 1)) ws) @ [SpinUnlockIrqrestore], 0, s')"
    and b: "\<forall>t \<in> set (thread_group (mem unmarked_state 1)). need_checkpoint (mem s' t)"
    and c: "distinct (thread_group (mem unmarked_state 1)) \<longrightarrow>
         ws = map (\<lambda>t. state (mem unmarked_state t) AND TASK_ALL demo_env \<noteq> 0)
                (thread_group (mem unmarked_state 1))"
    by (elim exE conjE)
  from c have ws: "ws = [False, True]" unfolding tg st by simp
  show ?thesis using b pt unfolding a ws tg by simp
qed

subsection \<open>The snapshot on success\<close>

lemma save_threads_events:
  "fst (save_threads X s ts i arr) = map SaveThreadRegs (take (length arr - i) ts)"
proof (induction ts arbitrary: i arr)
  case Nil
  then show ?case by simp
next
  case (Cons t ts)
  show ?case
  proof (cases "i < length arr")
    case True
    let ?v = "Some \<lparr>ss_pid = pid (mem s t), ss_regs = save_thread_regs X t\<rparr>"
    from True have n: "length arr - i = Suc (length arr - Suc i)" by simp
    from Cons.IH [of "Suc i" "arr[i := ?v]"] True show ?thesis
      unfolding n by (simp add: Let_def case_prod_beta)
  next
    case False
    then show ?thesis by simp
  qed
qed

lemma save_threads_fills:
  "i + length ts \<le> length arr \<Longrightarrow>
     save_threads X s ts i arr =
       (map SaveThreadRegs ts,
        take i arr @
        map (\<lambda>t. Some \<lparr>ss_pid = pid (mem s t), ss_regs = save_thread_regs X t\<rparr>) ts @
        drop (i + length ts) arr, True)"
proof (induction ts arbitrary: i arr)
  case Nil
  then show ?case by simp
next
  case (Cons t ts)
  let ?v = "Some \<lparr>ss_pid = pid (mem s t), ss_regs = save_thread_regs X t\<rparr>"
  from Cons.prems have i: "i < length arr" by simp
  from Cons.prems have "Suc i + length ts \<le> length (arr[i := ?v])" by simp
  from Cons.IH [OF this]
  have "save_threads X s ts (Suc i) (arr[i := ?v]) =
       (map SaveThreadRegs ts,
        take (Suc i) (arr[i := ?v]) @
        map (\<lambda>t. Some \<lparr>ss_pid = pid (mem s t), ss_regs = save_thread_regs X t\<rparr>) ts @
        drop (Suc i + length ts) (arr[i := ?v]), True)" .
  moreover have "take (Suc i) (arr[i := ?v]) = take i arr @ [?v]"
    using i by (simp add: take_Suc_conv_app_nth)
  moreover have "drop (Suc i + length ts) (arr[i := ?v]) = drop (Suc i + length ts) arr"
    by simp
  ultimately show ?case using i by simp
qed

lemma save_threads_overflow:
  "i \<le> length arr \<Longrightarrow> length arr < i + length ts \<Longrightarrow>
     snd (snd (save_threads X s ts i arr)) = False"
proof (induction ts arbitrary: i arr)
  case Nil
  then show ?case by simp
next
  case (Cons t ts)
  show ?case
  proof (cases "i < length arr")
    case True
    let ?v = "Some \<lparr>ss_pid = pid (mem s t), ss_regs = save_thread_regs X t\<rparr>"
    from True Cons.prems have "Suc i \<le> length (arr[i := ?v])"
      and "length (arr[i := ?v]) < Suc i + length ts"
      by simp_all
    from Cons.IH [OF this] True show ?thesis
      by (simp add: Let_def case_prod_beta)
  next
    case False
    then show ?thesis by simp
  qed
qed

text \<open>
  When the group has more threads than \<^verbatim>\<open>nr_threads\<close>, the run makes the calls for the
  first \<^verbatim>\<open>nr_threads\<close> threads and then stops at the store past the array.
\<close>

lemma overflow_faults_after_earlier_calls:
  assumes "kmalloc X s (sint (nr_threads (mem s leader))) = Some a"
    and "save_open_files X leader = 0"
    and "save_signals X leader = 0"
    and "nat (sint (nr_threads (mem s leader))) < length (thread_group (mem s leader))"
  shows "\<exists>s'. fst (snd (do_checkpoint_process_inner X leader s)) = Fault s' \<and>
          fst (do_checkpoint_process_inner X leader s) =
            paranoid_state_check X leader s @
            [Kmalloc (sint (nr_threads (mem s leader))), SaveOpenFiles leader,
             SaveSignals leader] @
            map SaveThreadRegs
              (take (nat (sint (nr_threads (mem s leader)))) (thread_group (mem s leader)))"
proof -
  let ?n = "nat (sint (nr_threads (mem s leader)))"
  let ?s1 = "s\<lparr>heap := (heap s)(a \<mapsto> replicate ?n None)\<rparr>"
  let ?ts = "thread_group (mem s leader)"
  obtain ev3 arr ok where st: "save_threads X ?s1 ?ts 0 (replicate ?n None) = (ev3, arr, ok)"
    by (cases "save_threads X ?s1 ?ts 0 (replicate ?n None)") auto
  from save_threads_events [of X ?s1 ?ts 0 "replicate ?n None"] st
  have ev3: "ev3 = map SaveThreadRegs (take ?n ?ts)" by simp
  have "snd (snd (save_threads X ?s1 ?ts 0 (replicate ?n None))) = False"
    by (rule save_threads_overflow) (use assms(4) in simp_all)
  with st have ok: "ok = False" by simp
  show ?thesis
    using assms(1-3) st ev3 ok by (simp add: do_checkpoint_process_inner_def Let_def)
qed

text \<open>
  When the group has at most \<^verbatim>\<open>nr_threads\<close> threads and the three steps before the loop
  succeed, the array holds one fragment per thread of the group, in the order of
  \<^verbatim>\<open>for_each_thread\<close>, each with that thread's pid, and the function returns 0.
\<close>

lemma success_fills_array:
  assumes "kmalloc X s (sint (nr_threads (mem s leader))) = Some a"
    and "save_open_files X leader = 0"
    and "save_signals X leader = 0"
    and "length (thread_group (mem s leader)) \<le> nat (sint (nr_threads (mem s leader)))"
  shows "do_checkpoint_process_inner X leader s =
           (paranoid_state_check X leader s @
              [Kmalloc (sint (nr_threads (mem s leader))), SaveOpenFiles leader,
               SaveSignals leader] @ map SaveThreadRegs (thread_group (mem s leader)),
            Returned 0
              (s\<lparr>heap := (heap s)(a \<mapsto>
                   map (\<lambda>t. Some \<lparr>ss_pid = pid (mem s t), ss_regs = save_thread_regs X t\<rparr>)
                       (thread_group (mem s leader)) @
                   replicate (nat (sint (nr_threads (mem s leader))) -
                              length (thread_group (mem s leader))) None)\<rparr>),
            Some \<lparr>nr_tasks = nr_threads (mem s leader), tasks = a\<rparr>)"
proof -
  let ?n = "nat (sint (nr_threads (mem s leader)))"
  let ?s1 = "s\<lparr>heap := (heap s)(a \<mapsto> replicate ?n None)\<rparr>"
  let ?ts = "thread_group (mem s leader)"
  have "0 + length ?ts \<le> length (replicate ?n (None :: ss_task_struct option))"
    using assms(4) by simp
  from save_threads_fills [OF this, of X ?s1]
  have st: "save_threads X ?s1 ?ts 0 (replicate ?n None) =
     (map SaveThreadRegs ?ts,
      map (\<lambda>t. Some \<lparr>ss_pid = pid (mem s t), ss_regs = save_thread_regs X t\<rparr>) ?ts @
      replicate (?n - length ?ts) None, True)"
    by simp
  show ?thesis
    using assms(1-3) st by (simp add: do_checkpoint_process_inner_def Let_def)
qed

text \<open>
  On every run of \<^verbatim>\<open>__do_checkpoint_process\<close> that returns 0 the array it allocated is
  still allocated, was not given to \<^verbatim>\<open>kfree\<close>, and its address is held by the automatic
  variable \<^verbatim>\<open>ps\<close> only; \<^verbatim>\<open>do_checkpoint_process\<close> passes on the 0 and the kernel state.
\<close>

lemma success_keeps_array_allocated:
  assumes "do_checkpoint_process_inner X leader s = (evs, Returned 0 s', ps)"
  shows "\<exists>a. kmalloc X s (sint (nr_threads (mem s leader))) = Some a \<and>
             heap s' a \<noteq> None \<and> Kfree a \<notin> set evs \<and>
             ps = Some \<lparr>nr_tasks = nr_threads (mem s leader), tasks = a\<rparr> \<and>
             snd (do_checkpoint_process X leader s) = Returned 0 s'"
proof (cases "kmalloc X s (sint (nr_threads (mem s leader)))")
  case None
  with assms show ?thesis
    by (simp add: do_checkpoint_process_inner_def Let_def ENOMEM_def)
next
  case (Some a)
  let ?n = "nat (sint (nr_threads (mem s leader)))"
  let ?s1 = "s\<lparr>heap := (heap s)(a \<mapsto> replicate ?n None)\<rparr>"
  obtain ev3 arr ok where st:
    "save_threads X ?s1 (thread_group (mem s leader)) 0 (replicate ?n None) = (ev3, arr, ok)"
    by (cases "save_threads X ?s1 (thread_group (mem s leader)) 0 (replicate ?n None)") auto
  from save_threads_events [of X ?s1 "thread_group (mem s leader)" 0 "replicate ?n None"] st
  have ev3: "Kfree a \<notin> set ev3" by auto
  have p: "Kfree a \<notin> set (paranoid_state_check X leader s)"
    by (auto simp: paranoid_state_check_def)
  from assms Some st ev3 p have
    "heap s' a \<noteq> None \<and> Kfree a \<notin> set evs \<and>
     ps = Some \<lparr>nr_tasks = nr_threads (mem s leader), tasks = a\<rparr>"
    by (auto simp: do_checkpoint_process_inner_def Let_def split: if_splits)
  moreover from assms have "snd (do_checkpoint_process X leader s) = Returned 0 s'"
    by (simp add: do_checkpoint_process_def)
  ultimately show ?thesis using Some by simp
qed

text \<open>
  Claim C3 says that on success the orchestrator returns the populated snapshot for a
  consumer and that its storage is never leaked. In the example process every capture
  step succeeds: \<^verbatim>\<open>do_checkpoint_process\<close> returns the \<^verbatim>\<open>int\<close> 0 and nothing else, the
  array it allocated at address 7 holds the fragments of the two threads, is still
  allocated and was never given to \<^verbatim>\<open>kfree\<close>, and this is still so when the leader has
  returned from \<^verbatim>\<open>checkpoint_thread\<close>.
\<close>

theorem success_leaks_fragment_array:
  "snd (do_checkpoint_process demo_env 1 demo_state) =
     Returned 0 (demo_state\<lparr>heap := [7 \<mapsto> [Some \<lparr>ss_pid = 100, ss_regs = 1001\<rparr>,
                                            Some \<lparr>ss_pid = 101, ss_regs = 1002\<rparr>]]\<rparr>)
   \<and> heap demo_state 7 = None
   \<and> count_list (fst (do_checkpoint_process demo_env 1 demo_state)) (Kfree 7) = 0
   \<and> snd (checkpoint_thread arrived_env 1 1 demo_state) =
       Returned 0 (outcome_state (snd (checkpoint_thread arrived_env 1 1 demo_state)))
   \<and> heap (outcome_state (snd (checkpoint_thread arrived_env 1 1 demo_state))) 7 =
       Some [Some \<lparr>ss_pid = 100, ss_regs = 1001\<rparr>, Some \<lparr>ss_pid = 101, ss_regs = 1002\<rparr>]
   \<and> count_list (fst (checkpoint_thread arrived_env 1 1 demo_state)) (Kfree 7) = 0"
  by (simp add: arrived_env_def demo_defs model_defs numeral_2_eq_2)

subsection \<open>The barrier timeout\<close>

lemma timeout_wakeup_loop_wakes_all:
  "barrier_timeout_wakeup_loop X ts i s = (evs, s') \<Longrightarrow> t \<in> set ts \<Longrightarrow>
     \<exists>w j st fl. WakeUpState t (TASK_ALL X) w \<in> set evs \<and>
                 DebugThread j (pid (mem s t)) st fl \<in> set evs"
proof (induction ts arbitrary: i s evs s')
  case Nil
  then show ?case by simp
next
  case (Cons u ts)
  obtain w s1 where w: "wake_up_state X u (TASK_ALL X) s = (w, s1)"
    by (cases "wake_up_state X u (TASK_ALL X) s") auto
  obtain evs' s2 where l: "barrier_timeout_wakeup_loop X ts (Suc i) s1 = (evs', s2)"
    by (cases "barrier_timeout_wakeup_loop X ts (Suc i) s1") auto
  from Cons.prems(1) w l have evs: "evs =
     [DebugThread i (pid (mem s u)) (state (mem s u)) (need_checkpoint (mem s u)),
      WakeUpState u (TASK_ALL X) w] @ evs'"
    by (simp add: Let_def)
  show ?case
  proof (cases "t = u")
    case True
    have "WakeUpState t (TASK_ALL X) w \<in> set evs"
      and "DebugThread i (pid (mem s t)) (state (mem s u)) (need_checkpoint (mem s u)) \<in> set evs"
      using evs True by simp_all
    then show ?thesis by (intro exI conjI)
  next
    case False
    with Cons.prems(2) have "t \<in> set ts" by simp
    from Cons.IH [OF l this] obtain w' j st fl where
      a: "WakeUpState t (TASK_ALL X) w' \<in> set evs'"
      and b: "DebugThread j (pid (mem s1 t)) st fl \<in> set evs'"
      by (elim exE conjE)
    have "pid (mem s1 t) = pid (mem s t)"
      using wake_up_state_mem [OF w, of t] by (simp split: if_splits)
    with a b evs have "WakeUpState t (TASK_ALL X) w' \<in> set evs"
      and "DebugThread j (pid (mem s t)) st fl \<in> set evs"
      by simp_all
    then show ?thesis by (intro exI conjI)
  qed
qed

lemma timeout_wakeup_loop_frame:
  "barrier_timeout_wakeup_loop X ts i s = (evs, s') \<Longrightarrow>
     need_checkpoint (mem s' u) = need_checkpoint (mem s u) \<and>
     process_barrier (mem s' u) = process_barrier (mem s u)"
proof (induction ts arbitrary: i s evs s')
  case Nil
  then show ?case by simp
next
  case (Cons t ts)
  obtain w s1 where w: "wake_up_state X t (TASK_ALL X) s = (w, s1)"
    by (cases "wake_up_state X t (TASK_ALL X) s") auto
  obtain evs' s2 where l: "barrier_timeout_wakeup_loop X ts (Suc i) s1 = (evs', s2)"
    by (cases "barrier_timeout_wakeup_loop X ts (Suc i) s1") auto
  from Cons.prems w l have s': "s' = s2" by (simp add: Let_def)
  from Cons.IH [OF l] wake_up_state_mem [OF w, of u] show ?case
    unfolding s' by (auto split: if_splits)
qed

text \<open>
  On the timeout path the leader makes no capture call, logs every thread of the group
  and wakes it with \<^verbatim>\<open>TASK_ALL\<close>, resets the barrier and clears its own flag; the flag
  of every other thread is as it was.
\<close>

lemma leader_timeout_path:
  assumes "p = group_leader (mem s p)" and "need_checkpoint (mem s p)"
    and "barrier_poll X p (jiffies (atomic_inc p s) +
            msecs_to_jiffies X (checkpoint_barrier_timeout_msec (atomic_inc p s)))
           (interleave X) (atomic_inc p s) = TimedOut s2"
  shows "\<exists>evs s'. checkpoint_thread X cur p s = (evs, Returned 0 s') \<and>
           captures evs = 0 \<and>
           (\<forall>t \<in> set (thread_group (mem s2 p)).
              \<exists>w j st fl. WakeUpState t (TASK_ALL X) w \<in> set evs \<and>
                          DebugThread j (pid (mem s2 t)) st fl \<in> set evs) \<and>
           process_barrier (mem s' p) = 0 \<and>
           \<not> need_checkpoint (mem s' p) \<and>
           (\<forall>u. u \<noteq> p \<longrightarrow> need_checkpoint (mem s' u) = need_checkpoint (mem s2 u))"
proof -
  obtain evl s3 where l: "barrier_timeout_wakeup_loop X (thread_group (mem s2 p)) 0 s2 = (evl, s3)"
    by (cases "barrier_timeout_wakeup_loop X (thread_group (mem s2 p)) 0 s2") auto
  let ?evw = "[DebugAbort (pid (mem s2 p)) (nr_threads (mem s2 p)) (checkpoint_barrier_timeout_msec s2),
               SpinLockIrqsave] @ evl @ [SpinUnlockIrqrestore]"
  have w: "barrier_timeout_wakeup X p s2 = (?evw, s3)"
    using l by (simp add: barrier_timeout_wakeup_def)
  let ?evs = "[DebugEnter (pid (mem s p)) (tgid (mem s p)), AtomicInc p] @ ?evw @
              [AtomicSet p 0, ClearTskThreadFlag p]"
  let ?s' = "set_need_checkpoint p False (atomic_set p 0 s3)"
  have ct: "checkpoint_thread X cur p s = (?evs, Returned 0 ?s')"
    by (rule checkpoint_thread_leader_timeout [OF assms w])
  have c0: "captures ?evs = 0"
    using captures_timeout_loop [OF l] by simp
  have wk: "\<forall>t \<in> set (thread_group (mem s2 p)).
              \<exists>w j st fl. WakeUpState t (TASK_ALL X) w \<in> set ?evs \<and>
                          DebugThread j (pid (mem s2 t)) st fl \<in> set ?evs"
  proof
    fix t assume "t \<in> set (thread_group (mem s2 p))"
    from timeout_wakeup_loop_wakes_all [OF l this] obtain w j st fl where
      "WakeUpState t (TASK_ALL X) w \<in> set evl" "DebugThread j (pid (mem s2 t)) st fl \<in> set evl"
      by (elim exE conjE)
    then have "WakeUpState t (TASK_ALL X) w \<in> set ?evs"
      and "DebugThread j (pid (mem s2 t)) st fl \<in> set ?evs"
      by simp_all
    then show "\<exists>w j st fl. WakeUpState t (TASK_ALL X) w \<in> set ?evs \<and>
                          DebugThread j (pid (mem s2 t)) st fl \<in> set ?evs"
      by (intro exI conjI)
  qed
  have b0: "process_barrier (mem ?s' p) = 0"
    by (simp add: set_need_checkpoint_def atomic_set_def)
  have f0: "\<not> need_checkpoint (mem ?s' p)"
    by (simp add: set_need_checkpoint_def atomic_set_def)
  have oth: "\<forall>u. u \<noteq> p \<longrightarrow> need_checkpoint (mem ?s' u) = need_checkpoint (mem s2 u)"
    using timeout_wakeup_loop_frame [OF l] by (simp add: set_need_checkpoint_def atomic_set_def)
  show ?thesis
    by (intro exI [of _ ?evs] exI [of _ ?s'] conjI) (rule ct c0 wk b0 f0 oth)+
qed

text \<open>
  Claim C4 says that after a barrier timeout every thread's checkpoint-requested flag is
  cleared. In the example process the second thread has not arrived when the timeout
  elapses. The leader returns 0 without a capture, the barrier is 0 and the leader's
  flag is cleared, but the second thread still has its flag, and has it still when it
  has entered \<^verbatim>\<open>checkpoint_thread\<close> afterwards and is parked there.
\<close>

theorem timeout_leaves_absent_thread_marked:
  "snd (checkpoint_thread demo_env 1 1 demo_state) = Returned 0 after_timeout
   \<and> captures (fst (checkpoint_thread demo_env 1 1 demo_state)) = 0
   \<and> process_barrier (mem after_timeout 1) = 0
   \<and> \<not> need_checkpoint (mem after_timeout 1)
   \<and> need_checkpoint (mem after_timeout 2)
   \<and> need_checkpoint (mem after_late_arrival 2)"
  by (simp add: after_late_arrival_def after_timeout_def demo_defs model_defs)

subsection \<open>The barrier count between attempts\<close>

lemma arrival_increments_barrier:
  assumes "need_checkpoint (mem s p)" and "p \<noteq> group_leader (mem s p)"
    and "schedule X (set_state cur (TASK_CHECKPOINTING X) (atomic_inc (group_leader (mem s p)) s)) = None"
  shows "\<exists>s2. checkpoint_thread X cur p s =
           ([DebugEnter (pid (mem s p)) (tgid (mem s p)), AtomicInc (group_leader (mem s p)),
             Schedule], Blocked s2) \<and>
          process_barrier (mem s2 (group_leader (mem s p))) =
            process_barrier (mem s (group_leader (mem s p))) + 1"
  using assms
  by (simp add: checkpoint_thread_non_leader set_state_def atomic_inc_def)

lemma leader_return_resets_barrier:
  assumes "p = group_leader (mem s p)"
    and "snd (checkpoint_thread X cur p s) = Returned r s'"
  shows "process_barrier (mem s' p) = 0 \<and> \<not> need_checkpoint (mem s' p)"
  using assms(2) assms(1) [symmetric]
  by (auto simp: checkpoint_thread_def Let_def set_need_checkpoint_def atomic_set_def
      split: if_splits option.splits barrier.splits prod.splits outcome.splits)

text \<open>
  Claim C6 says that the arrival counter is 0 immediately before a new attempt begins.
  In the example process the counter is 0 before the attempt and 0 when the leader has
  returned after the timeout. The second thread, still marked, then enters
  \<^verbatim>\<open>checkpoint_thread\<close>: it increments the counter and parks. The counter is 1 when the
  dispatcher starts the next attempt, and the dispatcher leaves it at 1.
\<close>

theorem late_arrival_leaves_barrier_nonzero:
  "process_barrier (mem demo_state 1) = 0
   \<and> process_barrier (mem after_timeout 1) = 0
   \<and> need_checkpoint (mem after_timeout 2)
   \<and> snd (checkpoint_thread demo_env 2 2 after_timeout) = Blocked after_late_arrival
   \<and> process_barrier (mem after_late_arrival 1) = 1
   \<and> process_barrier (mem (snd (snd (checkpoint_process demo_env 1 after_late_arrival))) 1) = 1"
  by (simp add: after_late_arrival_def after_timeout_def demo_defs model_defs)

end
